theory Spec2Isabelle
  imports Main "HOL-Library.Word"
begin

section \<open>Interprocessor communication over SPI (clib/interProcComm.c)\<close>

text \<open>
  The sensor MCU (bus master) pushes one frame to the control MCU (bus slave) with
  \<open>spiSend\<close>; the slave receives it in the interrupt routine \<open>_SPI1Interrupt\<close>,
  which fills one of the rows of \<open>spiRxBuf\<close> and publishes it through \<open>lastBuffer\<close>.

  Machine types are those of the dsPIC33F target the file is written for
  (\<open>p33fxxxx.h\<close>, SPI in 16-bit mode): \<open>unsigned int\<close> is a 16-bit word,
  \<open>unsigned char\<close> an 8-bit word. Arithmetic on them wraps.
\<close>

type_synonym uint = "16 word"
type_synonym uchar = "8 word"

subsection \<open>Constants of apDefinitions.h\<close>

text \<open>
  \<open>SPIBUFSIZE\<close>, \<open>BEGINSPI\<close> and \<open>ENDSPI\<close> are macros of \<open>apDefinitions.h\<close>, a header
  that is not among the sources. They are taken as parameters: every definition below
  receives them in a record, and the theorems hold for all their values unless a
  hypothesis says otherwise. \<open>SPIBUFSIZE\<close> is the row length of \<open>spiRxBuf\<close> and is
  compared with the \<open>unsigned int\<close> cursor, so it is a value of that type.
\<close>

record apDefinitions =
  SPIBUFSIZE :: uint
  BEGINSPI :: uint
  ENDSPI :: uint

subsection \<open>State of the slave\<close>

text \<open>
  The globals \<open>spiRxBuf[3][SPIBUFSIZE]\<close>, \<open>currentBuffer\<close>, \<open>lastBuffer\<close>, the static
  local \<open>spiBufIdx\<close> of the interrupt routine, and the transmit buffer of the SPI module:
  \<open>SPI1TXB\<close> holds the word last passed to \<open>WriteSPI1\<close>, which the module shifts out
  during the next bus round trip.

  The array is one contiguous block, row after row. \<open>stray\<close> lists the stores of a run
  that fell on memory outside this block (row index, column index and word as the
  routine computed them).
\<close>

record slave =
  spiRxBuf :: "uint list list"
  currentBuffer :: uchar
  lastBuffer :: uchar
  spiBufIdx :: uint
  SPI1TXB :: uint
  stray :: "(uchar \<times> uint \<times> uint) list"

text \<open>
  The state after program start and \<open>spiSlaveInit\<close>: the array is zero-initialised
  (static storage), \<open>currentBuffer = 0\<close>, \<open>lastBuffer = 2\<close>, \<open>spiBufIdx = 1\<close>, and
  \<open>spiSlaveInit\<close> has called \<open>WriteSPI1(0x0000)\<close>.
\<close>

definition slaveInit :: "apDefinitions \<Rightarrow> slave" where
  "slaveInit cfg =
     \<lparr>spiRxBuf = replicate 3 (replicate (unat (SPIBUFSIZE cfg)) 0),
      currentBuffer = 0, lastBuffer = 2, spiBufIdx = 1, SPI1TXB = 0, stray = []\<rparr>"

definition WriteSPI1 :: "uint \<Rightarrow> slave \<Rightarrow> slave" where
  "WriteSPI1 w s = s\<lparr>SPI1TXB := w\<rparr>"

text \<open>
  The assignment \<open>spiRxBuf[b][i] = v\<close>. The code checks neither index: the store goes
  to the cell \<open>b * SPIBUFSIZE + i\<close> cells from the start of the array. A column inside
  the row counts as it is. A column outside the row is a 16-bit index added to a 16-bit
  data address, where the sum wraps: it acts as a two's-complement displacement, and the
  column 65535 that \<open>1 - 2\<close> yields is one cell back. \<open>cell\<close> is this displacement. When
  it falls inside the array the store changes that cell, in whichever row it lies; when
  it falls before or behind the array the store hits other memory and is listed in
  \<open>stray\<close>.
\<close>

definition cell :: "apDefinitions \<Rightarrow> uchar \<Rightarrow> uint \<Rightarrow> int" where
  "cell cfg b i =
     int (unat b) * int (unat (SPIBUFSIZE cfg))
       + (if i < SPIBUFSIZE cfg then uint i else sint i)"

definition storeWord :: "apDefinitions \<Rightarrow> uchar \<Rightarrow> uint \<Rightarrow> uint \<Rightarrow> slave \<Rightarrow> slave" where
  "storeWord cfg b i v s =
     (let k = cell cfg b i; n = unat (SPIBUFSIZE cfg)
      in if 0 \<le> k \<and> k < 3 * int n
         then s\<lparr>spiRxBuf :=
                 (spiRxBuf s)[nat k div n := (spiRxBuf s ! (nat k div n))[nat k mod n := v]]\<rparr>
         else s\<lparr>stray := stray s @ [(b, i, v)]\<rparr>)"

text \<open>
  Reading the frame a slot index designates, as a consumer of \<open>spiRxBuf[lastBuffer]\<close>
  does; an index outside the three rows designates no slot.
\<close>

definition slotOf :: "slave \<Rightarrow> uchar \<Rightarrow> uint list option" where
  "slotOf s b = (if b < 3 then Some (spiRxBuf s ! unat b) else None)"

subsection \<open>The interrupt routine\<close>

text \<open>
  One invocation of \<open>_SPI1Interrupt\<close>; \<open>rx\<close> is the word \<open>ReadSPI1()\<close> returns, the word
  received in the round trip that raised the interrupt. The routine first loads the word
  for the next round trip, then reads. In the store
  \<open>spiRxBuf[currentBuffer][(spiBufIdx++) - 2] = dataRead\<close> the offset is the old cursor
  minus two in \<open>unsigned int\<close> arithmetic.
\<close>

definition SPI1Interrupt :: "apDefinitions \<Rightarrow> uint \<Rightarrow> slave \<Rightarrow> slave" where
  "SPI1Interrupt cfg rx s =
     (let s1 = (if spiBufIdx s < SPIBUFSIZE cfg then WriteSPI1 (spiBufIdx s) s
                else if spiBufIdx s = SPIBUFSIZE cfg then WriteSPI1 (ENDSPI cfg) s
                else WriteSPI1 0 s);
          dataRead = rx
      in if dataRead = BEGINSPI cfg then s1\<lparr>spiBufIdx := spiBufIdx s1 + 1\<rparr>
         else
           let s2 = storeWord cfg (currentBuffer s1) (spiBufIdx s1 - 2) dataRead s1;
               s3 = s2\<lparr>spiBufIdx := spiBufIdx s2 + 1\<rparr>
           in if spiBufIdx s3 > SPIBUFSIZE cfg
              then s3\<lparr>spiBufIdx := 1,
                      lastBuffer := currentBuffer s3,
                      currentBuffer := (if currentBuffer s3 > 2 then 0 else currentBuffer s3 + 1)\<rparr>
              else s3)"

text \<open>A sequence of interrupts, one per received word.\<close>

primrec interrupts :: "apDefinitions \<Rightarrow> uint list \<Rightarrow> slave \<Rightarrow> slave" where
  "interrupts cfg [] s = s"
| "interrupts cfg (w # ws) s = interrupts cfg ws (SPI1Interrupt cfg w s)"

text \<open>
  An invocation completes a frame when it takes the branch that switches the working
  buffers: the word read is not \<open>BEGINSPI\<close> and the incremented cursor is greater than
  \<open>SPIBUFSIZE\<close>. \<open>completions\<close> counts these invocations along a run.
\<close>

definition frameCompletes :: "apDefinitions \<Rightarrow> uint \<Rightarrow> slave \<Rightarrow> bool" where
  "frameCompletes cfg rx s = (rx \<noteq> BEGINSPI cfg \<and> spiBufIdx s + 1 > SPIBUFSIZE cfg)"

primrec completions :: "apDefinitions \<Rightarrow> uint list \<Rightarrow> slave \<Rightarrow> nat" where
  "completions cfg [] s = 0"
| "completions cfg (w # ws) s =
     (if frameCompletes cfg w s then 1 else 0) + completions cfg ws (SPI1Interrupt cfg w s)"

text \<open>
  \<open>beginRuns cfg n r ws\<close>: in \<open>ws\<close>, preceded by \<open>r\<close> words \<open>BEGINSPI\<close>, no more than \<open>n\<close>
  consecutive words are \<open>BEGINSPI\<close>.
\<close>

primrec beginRuns :: "apDefinitions \<Rightarrow> nat \<Rightarrow> nat \<Rightarrow> uint list \<Rightarrow> bool" where
  "beginRuns cfg n r [] = True"
| "beginRuns cfg n r (w # ws) =
     (if w = BEGINSPI cfg then r < n \<and> beginRuns cfg n (Suc r) ws
      else beginRuns cfg n 0 ws)"

text \<open>
  The words of a frame as they travel on the bus: \<open>payload data2Send i\<close> is the byte
  \<open>data2Send[i]\<close> widened to a word, as \<open>WriteSPI1(data2Send[rcvdIdx])\<close> sends it.
  \<open>received cfg data2Send j\<close> is the slave after it has received, from its initial
  state, \<open>BEGINSPI\<close> and then the first \<open>j\<close> words of the frame in order.
\<close>

definition payload :: "(uint \<Rightarrow> uchar) \<Rightarrow> nat \<Rightarrow> uint" where
  "payload data2Send i = ucast (data2Send (of_nat i))"

definition received :: "apDefinitions \<Rightarrow> (uint \<Rightarrow> uchar) \<Rightarrow> nat \<Rightarrow> slave" where
  "received cfg data2Send j =
     interrupts cfg (BEGINSPI cfg # map (payload data2Send) [0..<j]) (slaveInit cfg)"

subsection \<open>The sender\<close>

text \<open>
  \<open>spiSend\<close> sees the bus as one operation: \<open>WriteSPI1(w)\<close>, the wait
  \<open>while(!DataRdySPI1());\<close> and \<open>ReadSPI1()\<close> make one round trip, which hands \<open>w\<close> to
  the peer and yields the word the peer had loaded. A bus is a function from the peer's
  state and the word sent to the word received and the peer's next state; it yields
  \<open>None\<close> when no word ever arrives, where the wait spins forever. The loop of
  \<open>spiSend\<close> has no bound of its own, so not returning is the value \<open>None\<close>.

  The argument \<open>data2Send\<close> is a pointer to \<open>unsigned char\<close>; the function receives no
  length and indexes it with whatever the peer asks for. It is modelled as the memory
  it addresses, \<open>data2Send i\<close> being the byte at \<open>data2Send[i]\<close>.
\<close>

partial_function (option) spiSendLoop ::
  "('p \<Rightarrow> uint \<Rightarrow> (uint \<times> 'p) option) \<Rightarrow> apDefinitions \<Rightarrow> (uint \<Rightarrow> uchar) \<Rightarrow> uint \<Rightarrow> 'p \<Rightarrow> 'p option"
where
  "spiSendLoop bus cfg data2Send rcvdIdx p =
     (if rcvdIdx \<noteq> ENDSPI cfg
      then (case bus p (ucast (data2Send rcvdIdx)) of
              None \<Rightarrow> None
            | Some (r, p') \<Rightarrow> spiSendLoop bus cfg data2Send r p')
      else Some p)"

declare spiSendLoop.simps [code]

definition spiSend ::
  "('p \<Rightarrow> uint \<Rightarrow> (uint \<times> 'p) option) \<Rightarrow> apDefinitions \<Rightarrow> (uint \<Rightarrow> uchar) \<Rightarrow> 'p \<Rightarrow> 'p option"
where
  "spiSend bus cfg data2Send p =
     (case bus p (BEGINSPI cfg) of
        None \<Rightarrow> None
      | Some (rcvdIdx, p') \<Rightarrow> spiSendLoop bus cfg data2Send rcvdIdx p')"

text \<open>
  The bus with the slave as peer: the master receives the word the slave had loaded,
  and the slave's interrupt routine runs once, on the word the master sent.
\<close>

definition slaveBus :: "apDefinitions \<Rightarrow> slave \<Rightarrow> uint \<Rightarrow> (uint \<times> slave) option" where
  "slaveBus cfg s w = Some (SPI1TXB s, SPI1Interrupt cfg w s)"

text \<open>
  A peer that answers from a fixed list of words and logs what it receives; once the list
  is used up no word arrives any more. Its state is the pair of the answers left and the
  log.
\<close>

definition scriptedBus ::
  "uint list \<times> uint list \<Rightarrow> uint \<Rightarrow> (uint \<times> uint list \<times> uint list) option"
where
  "scriptedBus p w =
     (case fst p of [] \<Rightarrow> None | r # rs \<Rightarrow> Some (r, rs, snd p @ [w]))"

subsection \<open>A concrete configuration\<close>

text \<open>
  Rows of four words, sample sentinels above every byte and every index, and a frame of
  the four bytes 10, 20, 30, 40 (the memory behind it reads 0).
\<close>

definition cfg4 :: apDefinitions where
  "cfg4 = \<lparr>SPIBUFSIZE = 4, BEGINSPI = 0xFFFF, ENDSPI = 0xBEEF\<rparr>"

definition frame4 :: "uint \<Rightarrow> uchar" where
  "frame4 = (\<lambda>i. 0)(0 := 10, 1 := 20, 2 := 30, 3 := 40)"

section \<open>The word the interrupt routine transmits\<close>

lemmas isr_defs = SPI1Interrupt_def WriteSPI1_def storeWord_def cell_def Let_def

lemma replicate_3: "replicate 3 x = [x, x, x]"
  by (simp add: numeral_3_eq_3)

lemma replicate_4: "replicate 4 x = [x, x, x, x]"
  by (simp add: eval_nat_numeral)

text \<open>The store leaves every variable but the array and \<open>stray\<close> alone.\<close>

lemma storeWord_fields:
  "currentBuffer (storeWord cfg b i v s) = currentBuffer s"
  "lastBuffer (storeWord cfg b i v s) = lastBuffer s"
  "spiBufIdx (storeWord cfg b i v s) = spiBufIdx s"
  "SPI1TXB (storeWord cfg b i v s) = SPI1TXB s"
  by (simp_all add: storeWord_def Let_def)

lemmas isr_fields = SPI1Interrupt_def WriteSPI1_def Let_def storeWord_fields

lemma SPI1TXB_isr:
  "SPI1TXB (SPI1Interrupt cfg rx s) =
     (if spiBufIdx s < SPIBUFSIZE cfg then spiBufIdx s
      else if spiBufIdx s = SPIBUFSIZE cfg then ENDSPI cfg else 0)"
  by (simp add: isr_fields)

text \<open>
  Claim C9. The word the routine loads for transmission is determined by the cursor at
  entry: it is the same whatever word is received in that invocation, and the same in
  any other state with that cursor.
\<close>

theorem emit_depends_on_cursor_only:
  "SPI1TXB (SPI1Interrupt cfg rx s) = SPI1TXB (SPI1Interrupt cfg rx' s) \<and>
   SPI1TXB (SPI1Interrupt cfg rx s) =
     SPI1TXB (SPI1Interrupt cfg rx' (t\<lparr>spiBufIdx := spiBufIdx s\<rparr>))"
  by (simp add: SPI1TXB_isr)

text \<open>
  Claim C4, amended. The routine transmits the cursor itself while the cursor is below
  \<open>SPIBUFSIZE\<close>, \<open>ENDSPI\<close> when the cursor equals \<open>SPIBUFSIZE\<close>, and 0 when the cursor is
  above \<open>SPIBUFSIZE\<close>. When \<open>ENDSPI\<close> is neither 0 nor a value below \<open>SPIBUFSIZE\<close>, it is
  transmitted exactly when the cursor equals \<open>SPIBUFSIZE\<close>.
\<close>

theorem handler_emits_by_cursor:
  "(spiBufIdx s < SPIBUFSIZE cfg \<longrightarrow> SPI1TXB (SPI1Interrupt cfg rx s) = spiBufIdx s) \<and>
   (spiBufIdx s = SPIBUFSIZE cfg \<longrightarrow> SPI1TXB (SPI1Interrupt cfg rx s) = ENDSPI cfg) \<and>
   (SPIBUFSIZE cfg < spiBufIdx s \<longrightarrow> SPI1TXB (SPI1Interrupt cfg rx s) = 0) \<and>
   (SPIBUFSIZE cfg \<le> ENDSPI cfg \<and> ENDSPI cfg \<noteq> 0 \<longrightarrow>
      (SPI1TXB (SPI1Interrupt cfg rx s) = ENDSPI cfg \<longleftrightarrow> spiBufIdx s = SPIBUFSIZE cfg))"
  by (auto simp add: SPI1TXB_isr)

text \<open>
  With rows of four words: at cursor 3 the routine asks for index 3, at cursor 4 it
  sends \<open>ENDSPI\<close>, at cursor 5 it sends 0.
\<close>

theorem handler_emits_by_cursor_witness:
  "spiBufIdx (interrupts cfg4 [0xFFFF, 10] (slaveInit cfg4)) < SPIBUFSIZE cfg4 \<and>
   SPI1TXB (SPI1Interrupt cfg4 20 (interrupts cfg4 [0xFFFF, 10] (slaveInit cfg4))) = 3 \<and>
   spiBufIdx (interrupts cfg4 [0xFFFF, 10, 20] (slaveInit cfg4)) = SPIBUFSIZE cfg4 \<and>
   SPI1TXB (SPI1Interrupt cfg4 30 (interrupts cfg4 [0xFFFF, 10, 20] (slaveInit cfg4))) = 0xBEEF \<and>
   SPIBUFSIZE cfg4 < spiBufIdx (interrupts cfg4 [0xFFFF, 10, 20, 0xFFFF] (slaveInit cfg4)) \<and>
   SPI1TXB (SPI1Interrupt cfg4 30 (interrupts cfg4 [0xFFFF, 10, 20, 0xFFFF] (slaveInit cfg4))) = 0 \<and>
   SPIBUFSIZE cfg4 \<le> ENDSPI cfg4 \<and> ENDSPI cfg4 \<noteq> 0"
  using handler_emits_by_cursor [of "interrupts cfg4 [0xFFFF, 10] (slaveInit cfg4)" cfg4 20]
    handler_emits_by_cursor [of "interrupts cfg4 [0xFFFF, 10, 20] (slaveInit cfg4)" cfg4 30]
    handler_emits_by_cursor [of "interrupts cfg4 [0xFFFF, 10, 20, 0xFFFF] (slaveInit cfg4)" cfg4 30]
  by (simp add: cfg4_def slaveInit_def isr_fields)

text \<open>
  The claim as written has the cursor itself transmitted for every cursor from 1 to the
  frame size. With rows of four words the state after \<open>BEGINSPI, 10, 20\<close> has cursor 4,
  and the routine transmits \<open>ENDSPI\<close> there, not 4.
\<close>

theorem handler_emits_by_cursor_counterexample:
  "spiBufIdx (interrupts cfg4 [0xFFFF, 10, 20] (slaveInit cfg4)) = SPIBUFSIZE cfg4 \<and>
   SPI1TXB (SPI1Interrupt cfg4 30 (interrupts cfg4 [0xFFFF, 10, 20] (slaveInit cfg4))) = ENDSPI cfg4 \<and>
   SPI1TXB (SPI1Interrupt cfg4 30 (interrupts cfg4 [0xFFFF, 10, 20] (slaveInit cfg4)))
     \<noteq> spiBufIdx (interrupts cfg4 [0xFFFF, 10, 20] (slaveInit cfg4))"
  by (simp add: cfg4_def slaveInit_def isr_fields)

section \<open>Switching the working buffers\<close>

text \<open>
  What the code does in an invocation that reads a word other than \<open>BEGINSPI\<close>: it resets
  the cursor to 1, gives \<open>lastBuffer\<close> the value of \<open>currentBuffer\<close> and changes
  \<open>currentBuffer\<close> when the incremented cursor is greater than \<open>SPIBUFSIZE\<close>, and only
  then.
\<close>

lemma rotation_condition:
  "rx \<noteq> BEGINSPI cfg \<Longrightarrow>
   (SPIBUFSIZE cfg < spiBufIdx s + 1 \<longrightarrow>
      spiBufIdx (SPI1Interrupt cfg rx s) = 1 \<and>
      lastBuffer (SPI1Interrupt cfg rx s) = currentBuffer s \<and>
      currentBuffer (SPI1Interrupt cfg rx s) \<noteq> currentBuffer s \<and>
      (currentBuffer s < 2 \<longrightarrow> currentBuffer (SPI1Interrupt cfg rx s) = currentBuffer s + 1)) \<and>
   (\<not> SPIBUFSIZE cfg < spiBufIdx s + 1 \<longrightarrow>
      spiBufIdx (SPI1Interrupt cfg rx s) = spiBufIdx s + 1 \<and>
      lastBuffer (SPI1Interrupt cfg rx s) = lastBuffer s \<and>
      currentBuffer (SPI1Interrupt cfg rx s) = currentBuffer s)"
  by (auto simp add: isr_fields)

text \<open>
  Claim C5 says that, in an invocation that stores a payload word, the cursor is reset,
  \<open>lastBuffer\<close> is assigned and \<open>currentBuffer\<close> advances exactly when the incremented
  cursor exceeds the frame size plus one. The code at rows of four words, in the state
  reached after \<open>BEGINSPI\<close>, 10, 20 (cursor 4), reading the payload word 30: the
  incremented cursor is 5, which does not exceed 5, and yet the cursor is reset to 1, slot
  0 is published and \<open>currentBuffer\<close> advances to 1, one word before the frame is complete.
\<close>

theorem switch_one_word_early:
  "(30::uint) \<noteq> BEGINSPI cfg4 \<and>
   spiBufIdx (interrupts cfg4 [0xFFFF, 10, 20] (slaveInit cfg4)) = 4 \<and>
   \<not> (SPIBUFSIZE cfg4 + 1 < spiBufIdx (interrupts cfg4 [0xFFFF, 10, 20] (slaveInit cfg4)) + 1) \<and>
   spiBufIdx (SPI1Interrupt cfg4 30 (interrupts cfg4 [0xFFFF, 10, 20] (slaveInit cfg4))) = 1 \<and>
   lastBuffer (SPI1Interrupt cfg4 30 (interrupts cfg4 [0xFFFF, 10, 20] (slaveInit cfg4)))
     = currentBuffer (interrupts cfg4 [0xFFFF, 10, 20] (slaveInit cfg4)) \<and>
   currentBuffer (SPI1Interrupt cfg4 30 (interrupts cfg4 [0xFFFF, 10, 20] (slaveInit cfg4)))
     = currentBuffer (interrupts cfg4 [0xFFFF, 10, 20] (slaveInit cfg4)) + 1 \<and>
   spiRxBuf (SPI1Interrupt cfg4 30 (interrupts cfg4 [0xFFFF, 10, 20] (slaveInit cfg4)))
     = [[10, 20, 30, 0], [0, 0, 0, 0], [0, 0, 0, 0]]"
  by (simp add: cfg4_def slaveInit_def isr_defs replicate_3 replicate_4)

section \<open>The cursor between invocations\<close>

lemma unat_cursor_incr:
  "unat (i :: uint) < 65535 \<Longrightarrow> unat (i + 1) = unat i + 1"
  by (simp add: unat_word_ariths)

lemma spiBufIdx_begin:
  "spiBufIdx (SPI1Interrupt cfg (BEGINSPI cfg) s) = spiBufIdx s + 1"
  by (simp add: isr_fields)

lemma spiBufIdx_data:
  "rx \<noteq> BEGINSPI cfg \<Longrightarrow>
   spiBufIdx (SPI1Interrupt cfg rx s) =
     (if SPIBUFSIZE cfg < spiBufIdx s + 1 then 1 else spiBufIdx s + 1)"
  by (simp add: isr_fields)

text \<open>
  After a word other than \<open>BEGINSPI\<close> the cursor is at most \<open>SPIBUFSIZE\<close>; each
  \<open>BEGINSPI\<close> that follows adds one, with no reset. The invariant carries the number
  \<open>r\<close> of \<open>BEGINSPI\<close> words just read.
\<close>

lemma cursor_range_run:
  "1 \<le> unat (SPIBUFSIZE cfg) \<and> unat (SPIBUFSIZE cfg) \<le> 65532 \<Longrightarrow>
   beginRuns cfg 2 r ws \<Longrightarrow> r \<le> 2 \<Longrightarrow>
   1 \<le> unat (spiBufIdx s) \<Longrightarrow> unat (spiBufIdx s) \<le> unat (SPIBUFSIZE cfg) + r \<Longrightarrow>
   1 \<le> unat (spiBufIdx (interrupts cfg ws s)) \<and>
   unat (spiBufIdx (interrupts cfg ws s)) \<le> unat (SPIBUFSIZE cfg) + 2"
proof (induction ws arbitrary: s r)
  case Nil
  then show ?case by simp
next
  case (Cons w ws)
  from Cons.prems have small: "unat (spiBufIdx s) < 65535" by simp
  show ?case
  proof (cases "w = BEGINSPI cfg")
    case True
    with Cons.prems have r: "r < 2" and rest: "beginRuns cfg 2 (Suc r) ws" by simp_all
    have "unat (spiBufIdx (SPI1Interrupt cfg w s)) = unat (spiBufIdx s) + 1"
      using True small by (simp add: spiBufIdx_begin unat_cursor_incr)
    with Cons.IH [OF Cons.prems(1) rest, of "SPI1Interrupt cfg w s"] r Cons.prems(4,5)
    show ?thesis by simp
  next
    case False
    with Cons.prems have rest: "beginRuns cfg 2 0 ws" by simp
    have "unat (spiBufIdx (SPI1Interrupt cfg w s)) =
            (if unat (SPIBUFSIZE cfg) < unat (spiBufIdx s) + 1 then 1 else unat (spiBufIdx s) + 1)"
      using False small by (simp add: spiBufIdx_data word_less_nat_alt unat_cursor_incr)
    with Cons.IH [OF Cons.prems(1) rest, of "SPI1Interrupt cfg w s"] Cons.prems(1,4,5)
    show ?thesis by (simp split: if_splits)
  qed
qed

lemma beginRuns_take:
  "beginRuns cfg n r ws \<Longrightarrow> beginRuns cfg n r (take k ws)"
proof (induction ws arbitrary: k r)
  case Nil
  then show ?case by simp
next
  case (Cons w ws)
  then show ?case by (cases k) (auto split: if_splits)
qed

text \<open>
  Claim C8, amended. For rows of 1 to 65532 words and every sequence of received words
  in which no more than two consecutive words are \<open>BEGINSPI\<close>, run from the initial
  state, the cursor after each invocation (after any number \<open>k\<close> of the words) lies
  between 1 and \<open>SPIBUFSIZE + 2\<close>.
\<close>

theorem cursor_range:
  "1 \<le> SPIBUFSIZE cfg \<Longrightarrow> SPIBUFSIZE cfg \<le> 0xFFFC \<Longrightarrow> beginRuns cfg 2 0 ws \<Longrightarrow>
   1 \<le> unat (spiBufIdx (interrupts cfg (take k ws) (slaveInit cfg))) \<and>
   unat (spiBufIdx (interrupts cfg (take k ws) (slaveInit cfg))) \<le> unat (SPIBUFSIZE cfg) + 2"
  using cursor_range_run [of cfg 0 "take k ws" "slaveInit cfg"] beginRuns_take [of cfg 2 0 ws k]
  by (simp add: slaveInit_def word_le_nat_alt)

text \<open>
  The bound is reached: two \<open>BEGINSPI\<close> words read at cursor 4 leave the cursor at 6,
  and the next payload word resets it to 1.
\<close>

theorem cursor_range_witness:
  "1 \<le> SPIBUFSIZE cfg4 \<and> SPIBUFSIZE cfg4 \<le> 0xFFFC \<and>
   beginRuns cfg4 2 0 [0xFFFF, 10, 20, 0xFFFF, 0xFFFF, 30] \<and>
   unat (spiBufIdx (interrupts cfg4 (take 5 [0xFFFF, 10, 20, 0xFFFF, 0xFFFF, 30]) (slaveInit cfg4))) = 6 \<and>
   unat (spiBufIdx (interrupts cfg4 (take 6 [0xFFFF, 10, 20, 0xFFFF, 0xFFFF, 30]) (slaveInit cfg4))) = 1 \<and>
   unat (SPIBUFSIZE cfg4) + 2 = 6"
  using cursor_range [of cfg4 "[0xFFFF, 10, 20, 0xFFFF, 0xFFFF, 30]" 5]
    cursor_range [of cfg4 "[0xFFFF, 10, 20, 0xFFFF, 0xFFFF, 30]" 6]
  by (simp add: cfg4_def slaveInit_def isr_fields)

text \<open>
  The claim as written is about every sequence of received words. The branch for
  \<open>BEGINSPI\<close> increments the cursor and never resets it: six \<open>BEGINSPI\<close> words from
  the initial state leave the cursor at 7, above \<open>SPIBUFSIZE + 2 = 6\<close>.
\<close>

theorem cursor_range_counterexample:
  "\<not> unat (spiBufIdx (interrupts cfg4 [0xFFFF, 0xFFFF, 0xFFFF, 0xFFFF, 0xFFFF, 0xFFFF] (slaveInit cfg4)))
       \<le> unat (SPIBUFSIZE cfg4) + 2"
  by (simp add: cfg4_def slaveInit_def isr_fields)

section \<open>The two designations\<close>

lemmas run_defs =
  spiSend_def slaveBus_def spiSendLoop.simps cfg4_def frame4_def slaveInit_def isr_defs
  frameCompletes_def slotOf_def replicate_3 replicate_4

lemma last_neq_current_step:
  "lastBuffer s \<noteq> currentBuffer s \<Longrightarrow>
   lastBuffer (SPI1Interrupt cfg rx s) \<noteq> currentBuffer (SPI1Interrupt cfg rx s)"
  by (auto simp add: isr_fields)

text \<open>In every state reached from the initial one the two designations differ.\<close>

lemma last_neq_current_run:
  "lastBuffer s \<noteq> currentBuffer s \<Longrightarrow>
   lastBuffer (interrupts cfg ws s) \<noteq> currentBuffer (interrupts cfg ws s)"
  by (induction ws arbitrary: s) (simp_all add: last_neq_current_step)

lemma designations_keep:
  "\<not> frameCompletes cfg rx s \<Longrightarrow>
   lastBuffer (SPI1Interrupt cfg rx s) = lastBuffer s \<and>
   currentBuffer (SPI1Interrupt cfg rx s) = currentBuffer s"
  by (auto simp add: isr_fields frameCompletes_def)

text \<open>
  Claim C6 says that no invocation ever writes into the slot \<open>lastBuffer\<close> designates, so
  that its contents stay as published until the next switch. The code at rows of four
  words and the frame 10, 20, 30, 40 sent by \<open>spiSend\<close> to the slave in its initial state:
  the two designations differ, but after \<open>BEGINSPI\<close>, 10, 20, 30 slot 0 is published holding
  10, 20, 30, 0, and the next invocation, which completes no frame and leaves
  \<open>lastBuffer = 0\<close>, stores the word 40 through \<open>spiRxBuf[1][1 - 2]\<close> into offset 3 of
  slot 0: the published slot changes to 10, 20, 30, 40 under its reader.
\<close>

theorem published_slot_written:
  "lastBuffer (interrupts cfg4 [0xFFFF, 10, 20, 30] (slaveInit cfg4)) = 0 \<and>
   currentBuffer (interrupts cfg4 [0xFFFF, 10, 20, 30] (slaveInit cfg4)) = 1 \<and>
   slotOf (interrupts cfg4 [0xFFFF, 10, 20, 30] (slaveInit cfg4)) 0 = Some [10, 20, 30, 0] \<and>
   completions cfg4 [40] (interrupts cfg4 [0xFFFF, 10, 20, 30] (slaveInit cfg4)) = 0 \<and>
   lastBuffer (SPI1Interrupt cfg4 40 (interrupts cfg4 [0xFFFF, 10, 20, 30] (slaveInit cfg4))) = 0 \<and>
   slotOf (SPI1Interrupt cfg4 40 (interrupts cfg4 [0xFFFF, 10, 20, 30] (slaveInit cfg4))) 0
     = Some [10, 20, 30, 40] \<and>
   spiSend (slaveBus cfg4) cfg4 frame4 (slaveInit cfg4)
     = Some (SPI1Interrupt cfg4 40 (interrupts cfg4 [0xFFFF, 10, 20, 30] (slaveInit cfg4)))"
  by (simp add: run_defs)

text \<open>
  Stores while no frame completes, with \<open>currentBuffer = 0\<close>: the cursor is at most
  \<open>SPIBUFSIZE - 1\<close>, or it is 65535 and its increment wraps to 0. A column outside the row
  is then one of 65533, 65534, 65535, that is three, two or one cells before the array.
\<close>

lemma quiet_cursor:
  fixes i :: uint
  assumes a: "\<not> SPIBUFSIZE cfg < i + 1" and b: "\<not> i - 2 < SPIBUFSIZE cfg"
  shows "i = 0xFFFF \<or> i = 0 \<or> i = 1"
proof (rule ccontr)
  assume "\<not> ?thesis"
  then have ne: "i \<noteq> 0xFFFF" "i \<noteq> 0" "i \<noteq> 1" by simp_all
  from ne(1) have "unat i \<noteq> unat (0xFFFF :: uint)" by (simp add: word_unat_eq_iff)
  moreover have "unat i < 2 ^ LENGTH(16)" by (rule unsigned_less)
  ultimately have small: "unat i < 65535" by simp
  from ne(2,3) have "unat i \<noteq> 0" "unat i \<noteq> 1" by (simp_all add: word_unat_eq_iff)
  then have two: "2 \<le> unat i" by linarith
  then have "(2 :: uint) \<le> i" by (simp add: word_le_nat_alt)
  then have sub: "unat (i - 2) = unat i - 2" by (simp add: unat_sub)
  from a small have "unat i + 1 \<le> unat (SPIBUFSIZE cfg)"
    by (simp add: word_less_nat_alt unat_cursor_incr)
  moreover from b sub have "unat (SPIBUFSIZE cfg) \<le> unat i - 2"
    by (simp add: word_less_nat_alt)
  ultimately show False using two by linarith
qed

lemma quiet_column:
  fixes i :: uint
  assumes "\<not> SPIBUFSIZE cfg < i + 1" and "\<not> i - 2 < SPIBUFSIZE cfg"
  shows "sint (i - 2) < 0"
proof -
  from quiet_cursor [OF assms] consider "i = 0xFFFF" | "i = 0" | "i = 1" by blast
  then show ?thesis by cases simp_all
qed

lemma storeWord_row0:
  assumes "i < SPIBUFSIZE cfg"
  shows "storeWord cfg 0 i v s = s\<lparr>spiRxBuf := (spiRxBuf s)[0 := (spiRxBuf s ! 0)[unat i := v]]\<rparr>"
proof -
  from assms have lt: "unat i < unat (SPIBUFSIZE cfg)" by (simp add: word_less_nat_alt)
  from assms have c: "cell cfg 0 i = int (unat i)" by (simp add: cell_def)
  from lt have inside: "int (unat i) < 3 * int (unat (SPIBUFSIZE cfg))" by linarith
  show ?thesis
    unfolding storeWord_def c Let_def using lt inside by simp
qed

lemma storeWord_before:
  assumes "\<not> i < SPIBUFSIZE cfg" and "sint i < 0"
  shows "storeWord cfg 0 i v s = s\<lparr>stray := stray s @ [(0, i, v)]\<rparr>"
proof -
  from assms have c: "cell cfg 0 i = sint i" by (simp add: cell_def)
  show ?thesis
    unfolding storeWord_def c Let_def using assms(2) by simp
qed

text \<open>The invocation touches the array and \<open>stray\<close> through its one store only.\<close>

lemma storeWord_SPI1TXB:
  "spiRxBuf (storeWord cfg b i v (s\<lparr>SPI1TXB := w\<rparr>)) = spiRxBuf (storeWord cfg b i v s) \<and>
   stray (storeWord cfg b i v (s\<lparr>SPI1TXB := w\<rparr>)) = stray (storeWord cfg b i v s)"
  by (simp add: storeWord_def Let_def)

lemma spiRxBuf_isr:
  "spiRxBuf (SPI1Interrupt cfg rx s) =
     (if rx = BEGINSPI cfg then spiRxBuf s
      else spiRxBuf (storeWord cfg (currentBuffer s) (spiBufIdx s - 2) rx s))"
  by (simp add: SPI1Interrupt_def WriteSPI1_def Let_def storeWord_SPI1TXB)

lemma stray_isr:
  "stray (SPI1Interrupt cfg rx s) =
     (if rx = BEGINSPI cfg then stray s
      else stray (storeWord cfg (currentBuffer s) (spiBufIdx s - 2) rx s))"
  by (simp add: SPI1Interrupt_def WriteSPI1_def Let_def storeWord_SPI1TXB)

lemma quiet_step:
  assumes "\<not> frameCompletes cfg rx s" and "currentBuffer s = 0"
  shows "slotOf (SPI1Interrupt cfg rx s) 2 = slotOf s 2 \<and>
         (stray (SPI1Interrupt cfg rx s) = stray s \<or>
          stray (SPI1Interrupt cfg rx s) = stray s @ [(0, spiBufIdx s - 2, rx)])"
proof (cases "rx = BEGINSPI cfg")
  case True
  then show ?thesis by (simp add: spiRxBuf_isr stray_isr slotOf_def)
next
  case False
  with assms(1) have small: "\<not> SPIBUFSIZE cfg < spiBufIdx s + 1"
    by (simp add: frameCompletes_def)
  show ?thesis
  proof (cases "spiBufIdx s - 2 < SPIBUFSIZE cfg")
    case True
    from False assms(2) show ?thesis
      by (simp add: spiRxBuf_isr stray_isr slotOf_def storeWord_row0 [OF True])
  next
    case outside: False
    from False assms(2) show ?thesis
      by (simp add: spiRxBuf_isr stray_isr slotOf_def
            storeWord_before [OF outside quiet_column [OF small outside]])
  qed
qed

lemma quiet_run:
  "completions cfg ws s = 0 \<Longrightarrow> currentBuffer s = 0 \<Longrightarrow>
   lastBuffer (interrupts cfg ws s) = lastBuffer s \<and>
   currentBuffer (interrupts cfg ws s) = 0 \<and>
   slotOf (interrupts cfg ws s) 2 = slotOf s 2 \<and>
   set (stray (interrupts cfg ws s)) \<subseteq> set (stray s) \<union> {e. fst e = 0}"
proof (induction ws arbitrary: s)
  case Nil
  then show ?case by simp
next
  case (Cons w ws)
  let ?s' = "SPI1Interrupt cfg w s"
  from Cons.prems(1) have nc: "\<not> frameCompletes cfg w s"
    and rest: "completions cfg ws ?s' = 0"
    by (simp_all split: if_splits)
  from designations_keep [OF nc] Cons.prems(2)
  have keep: "lastBuffer ?s' = lastBuffer s" "currentBuffer ?s' = 0"
    by simp_all
  from quiet_step [OF nc Cons.prems(2)]
  have slot: "slotOf ?s' 2 = slotOf s 2"
    and str: "set (stray ?s') \<subseteq> set (stray s) \<union> {e. fst e = 0}"
    by auto
  from Cons.IH [OF rest keep(2)] keep slot str show ?case by auto
qed

text \<open>
  Claim C10. Initially \<open>currentBuffer = 0\<close> and \<open>lastBuffer = 2\<close>. As long as no
  invocation has completed a frame, they keep these values, every store that left the
  array was addressed to row 0, and the slot \<open>lastBuffer\<close> designates holds the zeros the
  array starts with. The state has nothing else a reader could consult: with rows of four
  words, twelve zero words complete three frames and leave \<open>lastBuffer\<close> and the slot it
  designates exactly as they are initially.
\<close>

theorem initial_designation:
  "currentBuffer (slaveInit cfg) = 0 \<and> lastBuffer (slaveInit cfg) = 2 \<and>
   (completions cfg ws (slaveInit cfg) = 0 \<longrightarrow>
      currentBuffer (interrupts cfg ws (slaveInit cfg)) = 0 \<and>
      lastBuffer (interrupts cfg ws (slaveInit cfg)) = 2 \<and>
      (\<forall>e \<in> set (stray (interrupts cfg ws (slaveInit cfg))). fst e = 0) \<and>
      slotOf (interrupts cfg ws (slaveInit cfg)) 2 = Some (replicate (unat (SPIBUFSIZE cfg)) 0)) \<and>
   completions cfg4 [0, 0, 0, 0, 0, 0, 0, 0, 0, 0, 0, 0] (slaveInit cfg4) = 3 \<and>
   lastBuffer (interrupts cfg4 [0, 0, 0, 0, 0, 0, 0, 0, 0, 0, 0, 0] (slaveInit cfg4))
     = lastBuffer (slaveInit cfg4) \<and>
   slotOf (interrupts cfg4 [0, 0, 0, 0, 0, 0, 0, 0, 0, 0, 0, 0] (slaveInit cfg4)) 2
     = slotOf (slaveInit cfg4) 2"
proof -
  have init: "currentBuffer (slaveInit cfg) = 0" "lastBuffer (slaveInit cfg) = 2"
    "stray (slaveInit cfg) = []"
    "slotOf (slaveInit cfg) 2 = Some (replicate (unat (SPIBUFSIZE cfg)) 0)"
    by (simp_all add: slaveInit_def slotOf_def)
  have general: "completions cfg ws (slaveInit cfg) = 0 \<longrightarrow>
      currentBuffer (interrupts cfg ws (slaveInit cfg)) = 0 \<and>
      lastBuffer (interrupts cfg ws (slaveInit cfg)) = 2 \<and>
      (\<forall>e \<in> set (stray (interrupts cfg ws (slaveInit cfg))). fst e = 0) \<and>
      slotOf (interrupts cfg ws (slaveInit cfg)) 2 = Some (replicate (unat (SPIBUFSIZE cfg)) 0)"
    using init quiet_run [of cfg ws "slaveInit cfg"]
    by auto
  have zeros: "completions cfg4 [0, 0, 0, 0, 0, 0, 0, 0, 0, 0, 0, 0] (slaveInit cfg4) = 3"
    "lastBuffer (interrupts cfg4 [0, 0, 0, 0, 0, 0, 0, 0, 0, 0, 0, 0] (slaveInit cfg4))
       = lastBuffer (slaveInit cfg4)"
    "slotOf (interrupts cfg4 [0, 0, 0, 0, 0, 0, 0, 0, 0, 0, 0, 0] (slaveInit cfg4)) 2
       = slotOf (slaveInit cfg4) 2"
    by (simp_all add: run_defs)
  from init(1,2) general zeros show ?thesis by blast
qed

text \<open>
  With rows of four words, after \<open>BEGINSPI, 10, 20\<close> no frame is complete: \<open>lastBuffer\<close>
  is 2 and slot 2 holds four zeros.
\<close>

theorem initial_designation_witness:
  "completions cfg4 [0xFFFF, 10, 20] (slaveInit cfg4) = 0 \<and>
   lastBuffer (interrupts cfg4 [0xFFFF, 10, 20] (slaveInit cfg4)) = 2 \<and>
   stray (interrupts cfg4 [0xFFFF, 10, 20] (slaveInit cfg4)) = [] \<and>
   slotOf (interrupts cfg4 [0xFFFF, 10, 20] (slaveInit cfg4)) 2 = Some [0, 0, 0, 0]"
  using initial_designation [of cfg4 "[0xFFFF, 10, 20]"]
  by (simp add: run_defs)

section \<open>The period of the rotation\<close>

lemma uchar_le3_cases: "(c :: uchar) \<le> 3 \<Longrightarrow> c = 0 \<or> c = 1 \<or> c = 2 \<or> c = 3"
  by unat_arith

lemma next_slot:
  "(c :: uchar) \<le> 3 \<Longrightarrow>
   (if c > 2 then 0 else c + 1) \<le> 3 \<and> unat (if c > 2 then 0 else c + 1) = (unat c + 1) mod 4"
  by (auto dest!: uchar_le3_cases)

lemma currentBuffer_step:
  "currentBuffer (SPI1Interrupt cfg rx s) =
     (if frameCompletes cfg rx s then (if currentBuffer s > 2 then 0 else currentBuffer s + 1)
      else currentBuffer s)"
  by (auto simp add: isr_fields frameCompletes_def)

lemma currentBuffer_run:
  "currentBuffer s \<le> 3 \<Longrightarrow>
   currentBuffer (interrupts cfg ws s) \<le> 3 \<and>
   unat (currentBuffer (interrupts cfg ws s))
     = (unat (currentBuffer s) + completions cfg ws s) mod 4"
proof (induction ws arbitrary: s)
  case Nil
  then have "unat (currentBuffer s) \<le> 3" by (simp add: word_le_nat_alt)
  with Nil show ?case by simp
next
  case (Cons w ws)
  let ?s' = "SPI1Interrupt cfg w s"
  show ?case
  proof (cases "frameCompletes cfg w s")
    case True
    from next_slot [OF Cons.prems] True
    have le: "currentBuffer ?s' \<le> 3"
      and un: "unat (currentBuffer ?s') = (unat (currentBuffer s) + 1) mod 4"
      by (simp_all add: currentBuffer_step)
    from Cons.IH [OF le] un True show ?thesis
      by (simp add: mod_add_left_eq add.assoc)
  next
    case False
    then have "currentBuffer ?s' = currentBuffer s" by (simp add: currentBuffer_step)
    with Cons.IH [of ?s'] Cons.prems False show ?thesis by simp
  qed
qed

text \<open>
  What the code does: the test \<open>currentBuffer > 2\<close> lets \<open>currentBuffer\<close> reach 3
  before it wraps, so after \<open>k\<close> completed frames it is \<open>k mod 4\<close>.
\<close>

lemma currentBuffer_cycles_mod4:
  "unat (currentBuffer (interrupts cfg ws (slaveInit cfg)))
     = completions cfg ws (slaveInit cfg) mod 4"
  using currentBuffer_run [of "slaveInit cfg" cfg ws]
  by (simp add: slaveInit_def)

text \<open>
  Claim C3 says that after \<open>k\<close> completed frames \<open>currentBuffer\<close> is \<open>k mod 3\<close> and stays
  within 0..2. The code at three frames: with rows of four words, three calls of
  \<open>spiSend\<close> with the frame 10, 20, 30, 40 against the slave in its initial state leave
  \<open>currentBuffer = 3\<close>, which designates no row of \<open>spiRxBuf[3][SPIBUFSIZE]\<close>.
\<close>

theorem currentBuffer_after_three_frames:
  "map_option (\<lambda>s. (currentBuffer s, lastBuffer s, slotOf s (currentBuffer s)))
     (Option.bind
        (Option.bind (spiSend (slaveBus cfg4) cfg4 frame4 (slaveInit cfg4))
           (spiSend (slaveBus cfg4) cfg4 frame4))
        (spiSend (slaveBus cfg4) cfg4 frame4))
   = Some (3, 2, None)"
  by (simp add: run_defs)

section \<open>The sender's protocol\<close>

lemma scripted_loop:
  "spiSendLoop scriptedBus cfg d r (rs, log) =
     (if ENDSPI cfg \<in> set (r # rs)
      then Some (tl (dropWhile (\<lambda>x. x \<noteq> ENDSPI cfg) (r # rs)),
                 log @ map (\<lambda>x. ucast (d x)) (takeWhile (\<lambda>x. x \<noteq> ENDSPI cfg) (r # rs)))
      else None)"
proof (induction rs arbitrary: r log)
  case Nil
  show ?case
    by (subst spiSendLoop.simps) (simp add: scriptedBus_def)
next
  case (Cons a rs)
  show ?case
  proof (cases "r = ENDSPI cfg")
    case True
    then show ?thesis by (subst spiSendLoop.simps) simp
  next
    case False
    have "spiSendLoop scriptedBus cfg d r (a # rs, log) =
            spiSendLoop scriptedBus cfg d a (rs, log @ [ucast (d r)])"
      using False by (subst spiSendLoop.simps) (simp add: scriptedBus_def)
    with False show ?thesis by (simp add: Cons.IH)
  qed
qed

lemma length_tl_dropWhile:
  "x \<in> set xs \<Longrightarrow>
   Suc (length (takeWhile (\<lambda>y. y \<noteq> x) xs) + length (tl (dropWhile (\<lambda>y. y \<noteq> x) xs))) = length xs"
  by (induction xs) auto

text \<open>
  Claim C7. Against a peer that answers with the words \<open>rs\<close> in turn, \<open>spiSend\<close>
  returns exactly when \<open>ENDSPI\<close> is among the answers; it has then consumed the answers
  up to the first \<open>ENDSPI\<close> and no further, and the words it transmitted are \<open>BEGINSPI\<close>
  followed, for each answer \<open>r\<close> before that \<open>ENDSPI\<close> and in their order, by
  \<open>data2Send[r]\<close>. Every transmitted word is paired with one answer consumed. When no
  \<open>ENDSPI\<close> ever arrives \<open>spiSend\<close> does not return.
\<close>

theorem spiSend_protocol:
  "spiSend scriptedBus cfg data2Send (rs, []) =
     (if ENDSPI cfg \<in> set rs
      then Some (tl (dropWhile (\<lambda>r. r \<noteq> ENDSPI cfg) rs),
                 BEGINSPI cfg #
                   map (\<lambda>r. ucast (data2Send r)) (takeWhile (\<lambda>r. r \<noteq> ENDSPI cfg) rs))
      else None) \<and>
   (\<forall>rest sent. spiSend scriptedBus cfg data2Send (rs, []) = Some (rest, sent) \<longrightarrow>
      length sent + length rest = length rs)"
proof -
  have run: "spiSend scriptedBus cfg data2Send (rs, []) =
     (if ENDSPI cfg \<in> set rs
      then Some (tl (dropWhile (\<lambda>r. r \<noteq> ENDSPI cfg) rs),
                 BEGINSPI cfg #
                   map (\<lambda>r. ucast (data2Send r)) (takeWhile (\<lambda>r. r \<noteq> ENDSPI cfg) rs))
      else None)"
    by (cases rs) (simp_all add: spiSend_def scriptedBus_def scripted_loop)
  have "length sent + length rest = length rs"
    if "spiSend scriptedBus cfg data2Send (rs, []) = Some (rest, sent)" for rest sent
  proof -
    from that run have e: "ENDSPI cfg \<in> set rs"
      and r: "rest = tl (dropWhile (\<lambda>r. r \<noteq> ENDSPI cfg) rs)"
      and t: "length sent = Suc (length (takeWhile (\<lambda>r. r \<noteq> ENDSPI cfg) rs))"
      by (auto split: if_splits)
    from length_tl_dropWhile [OF e] r t show ?thesis by simp
  qed
  with run show ?thesis by blast
qed

text \<open>
  The answers 0, 1, 2, 3, \<open>ENDSPI\<close>, 7: the sender transmits \<open>BEGINSPI\<close>, 10, 20, 30, 40
  and returns with the answer 7 unread. The answers 0, 1, 2, 3: it never returns.
\<close>

theorem spiSend_protocol_witness:
  "spiSend scriptedBus cfg4 frame4 ([0, 1, 2, 3, 0xBEEF, 7], []) =
     Some ([7], [0xFFFF, 10, 20, 30, 40]) \<and>
   spiSend scriptedBus cfg4 frame4 ([0, 1, 2, 3], []) = None"
  using spiSend_protocol [of cfg4 frame4 "[0, 1, 2, 3, 0xBEEF, 7]"]
    spiSend_protocol [of cfg4 frame4 "[0, 1, 2, 3]"]
  by (simp add: cfg4_def frame4_def)

section \<open>A complete frame exchange\<close>

lemma unat_of_nat16: "j < 65536 \<Longrightarrow> unat (of_nat j :: uint) = j"
  by (simp add: unat_of_nat)

lemma interrupts_snoc:
  "interrupts cfg (ws @ [w]) s = SPI1Interrupt cfg w (interrupts cfg ws s)"
  by (induction ws arbitrary: s) simp_all

lemma received_Suc:
  "received cfg d (Suc j) = SPI1Interrupt cfg (payload d j) (received cfg d j)"
  by (simp add: received_def interrupts_snoc [symmetric] del: interrupts.simps)

lemma received_0: "received cfg d 0 = SPI1Interrupt cfg (BEGINSPI cfg) (slaveInit cfg)"
  by (simp add: received_def)

text \<open>A byte widened to a word is below 256, so it differs from any larger \<open>BEGINSPI\<close>.\<close>

lemma payload_neq_BEGINSPI:
  "255 < BEGINSPI cfg \<Longrightarrow> payload d i \<noteq> BEGINSPI cfg"
proof -
  have "unat (d (of_nat i)) < 2 ^ LENGTH(8)" by (rule unsigned_less)
  then have "unat (payload d i) < 256"
    by (simp add: payload_def unsigned_ucast_eq take_bit_nat_eq_self)
  moreover assume "255 < BEGINSPI cfg"
  ultimately show ?thesis by (auto simp add: word_less_nat_alt)
qed

lemma store_next:
  "j < n \<Longrightarrow> (map f [0..<j] @ replicate (n - j) z)[j := w]
     = map f [0..<j] @ w # replicate (n - Suc j) z"
  by (cases "n - j") (simp_all add: list_update_append Suc_diff_Suc)

lemma store_last:
  "(map f [0..<m] @ replicate 2 z)[m := w] = map f [0..<m] @ [w, z]"
  by (simp add: list_update_append numeral_2_eq_2)

lemma store_final:
  "0 < n \<Longrightarrow> (map f [0..<n - 1] @ [z])[n - 1 := f (n - 1)] = map f [0..<n]"
proof -
  assume "0 < n"
  then obtain m where n: "n = Suc m" by (cases n) simp_all
  show ?thesis unfolding n by (simp add: list_update_append)
qed

text \<open>
  The column 65535 in row 1 is the last cell of row 0; in general it is a cell of an
  earlier row or a cell before the array, never one of the row it is applied to.
\<close>

lemma storeWord_row1_back:
  assumes "1 \<le> SPIBUFSIZE cfg" and "SPIBUFSIZE cfg < 0xFFFF"
  shows "storeWord cfg 1 (- 1) v s
           = s\<lparr>spiRxBuf := (spiRxBuf s)[0 := (spiRxBuf s ! 0)[unat (SPIBUFSIZE cfg) - 1 := v]]\<rparr>"
proof -
  define n where "n = unat (SPIBUFSIZE cfg)"
  from assms(1) have n: "1 \<le> n" by (simp add: n_def word_le_nat_alt)
  have "cell cfg 1 (- 1) = int n - 1" by (simp add: cell_def n_def)
  with n have c: "cell cfg 1 (- 1) = int (n - 1)" by linarith
  from n have inside: "0 \<le> int (n - 1) \<and> int (n - 1) < 3 * int n" by linarith
  from n have d: "nat (int (n - 1)) div n = 0" "nat (int (n - 1)) mod n = n - 1"
    by simp_all
  show ?thesis
    unfolding storeWord_def c Let_def n_def [symmetric] d using inside by simp
qed




text \<open>
  While the frame is in progress (the cursor has not passed \<open>SPIBUFSIZE\<close>), the slave
  has stored the \<open>j\<close> words received at the offsets 0 to \<open>j - 1\<close> of row 0, asks for index
  \<open>j + 1\<close> and has its cursor at \<open>j + 2\<close>.
\<close>

lemma received_in_frame:
  assumes n: "unat (SPIBUFSIZE cfg) < 65535"
    and pl: "\<forall>i < unat (SPIBUFSIZE cfg). payload d i \<noteq> BEGINSPI cfg"
  shows "j + 2 \<le> unat (SPIBUFSIZE cfg) \<Longrightarrow>
    received cfg d j =
      \<lparr>spiRxBuf = [map (payload d) [0..<j] @ replicate (unat (SPIBUFSIZE cfg) - j) 0,
                   replicate (unat (SPIBUFSIZE cfg)) 0, replicate (unat (SPIBUFSIZE cfg)) 0],
       currentBuffer = 0, lastBuffer = 2, spiBufIdx = of_nat (j + 2),
       SPI1TXB = of_nat (j + 1), stray = []\<rparr>"
proof (induction j)
  case 0
  then have "(1 :: uint) < SPIBUFSIZE cfg" by (simp add: word_less_nat_alt)
  then show ?case
    by (simp add: received_0 slaveInit_def SPI1Interrupt_def WriteSPI1_def Let_def replicate_3)
next
  case (Suc j)
  define c :: uint where "c = of_nat (j + 2)"
  define k :: uint where "k = of_nat j"
  from Suc.prems n have uc: "unat c = j + 2" unfolding c_def by (intro unat_of_nat16) simp
  from Suc.prems n have uk: "unat k = j" unfolding k_def by (intro unat_of_nat16) simp
  have ck: "c - 2 = k" "c + 1 = of_nat (Suc j + 2)" "of_nat (Suc j + 1) = c"
    by (simp_all add: c_def k_def)
  from Suc.prems n uc uk have cmp: "c < SPIBUFSIZE cfg" "k < SPIBUFSIZE cfg"
    "\<not> SPIBUFSIZE cfg < c + 1"
    by (simp_all add: word_less_nat_alt unat_cursor_incr)
  from Suc.prems pl have ne: "payload d j \<noteq> BEGINSPI cfg" by simp
  from Suc have prev: "received cfg d j =
      \<lparr>spiRxBuf = [map (payload d) [0..<j] @ replicate (unat (SPIBUFSIZE cfg) - j) 0,
                   replicate (unat (SPIBUFSIZE cfg)) 0, replicate (unat (SPIBUFSIZE cfg)) 0],
       currentBuffer = 0, lastBuffer = 2, spiBufIdx = c,
       SPI1TXB = of_nat (j + 1), stray = []\<rparr>"
    by (simp add: c_def)
  have "SPI1Interrupt cfg (payload d j)
          \<lparr>spiRxBuf = [map (payload d) [0..<j] @ replicate (unat (SPIBUFSIZE cfg) - j) 0,
                  replicate (unat (SPIBUFSIZE cfg)) 0, replicate (unat (SPIBUFSIZE cfg)) 0],
           currentBuffer = 0, lastBuffer = 2, spiBufIdx = c, SPI1TXB = of_nat (j + 1),
           stray = []\<rparr>
        = \<lparr>spiRxBuf = [map (payload d) [0..<Suc j] @ replicate (unat (SPIBUFSIZE cfg) - Suc j) 0,
                  replicate (unat (SPIBUFSIZE cfg)) 0, replicate (unat (SPIBUFSIZE cfg)) 0],
           currentBuffer = 0, lastBuffer = 2, spiBufIdx = c + 1, SPI1TXB = c,
           stray = []\<rparr>"
    using Suc.prems ne cmp uk
    by (simp add: SPI1Interrupt_def WriteSPI1_def Let_def ck(1) storeWord_row0 [OF cmp(2)]
          store_next)
  then show ?case
    unfolding received_Suc prev ck(2,3) .
qed

text \<open>
  The invocation entered at cursor \<open>SPIBUFSIZE\<close> loads \<open>ENDSPI\<close>, stores the word at offset
  \<open>SPIBUFSIZE - 2\<close> and switches the buffers: the slot is published one word short.
\<close>

lemma received_before_last:
  assumes s: "2 \<le> SPIBUFSIZE cfg" "SPIBUFSIZE cfg < 0xFFFF"
    and pl: "\<forall>i < unat (SPIBUFSIZE cfg). payload d i \<noteq> BEGINSPI cfg"
  shows "received cfg d (unat (SPIBUFSIZE cfg) - 1) =
     \<lparr>spiRxBuf = [map (payload d) [0..<unat (SPIBUFSIZE cfg) - 1] @ [0],
                  replicate (unat (SPIBUFSIZE cfg)) 0, replicate (unat (SPIBUFSIZE cfg)) 0],
      currentBuffer = 1, lastBuffer = 0, spiBufIdx = 1, SPI1TXB = ENDSPI cfg, stray = []\<rparr>"
proof -
  from s have n: "unat (SPIBUFSIZE cfg) < 65535" and n2: "2 \<le> unat (SPIBUFSIZE cfg)"
    by (simp_all add: word_less_nat_alt word_le_nat_alt)
  from n2 obtain m where m: "unat (SPIBUFSIZE cfg) = Suc (Suc m)"
    by (metis add_2_eq_Suc le_Suc_ex)
  define k :: uint where "k = of_nat m"
  from m n have uk: "unat k = m" unfolding k_def by (intro unat_of_nat16) simp
  have "SPIBUFSIZE cfg = of_nat (unat (SPIBUFSIZE cfg))" by simp
  then have S: "SPIBUFSIZE cfg = of_nat (m + 2)" unfolding m by simp
  then have Sk: "SPIBUFSIZE cfg - 2 = k" by (simp add: k_def)
  from uk m have cmp: "k < SPIBUFSIZE cfg" "SPIBUFSIZE cfg < SPIBUFSIZE cfg + 1"
    using n by (simp_all add: word_less_nat_alt unat_cursor_incr)
  from m pl have ne: "payload d m \<noteq> BEGINSPI cfg" by simp
  from m have prev: "received cfg d m =
      \<lparr>spiRxBuf = [map (payload d) [0..<m] @ replicate (unat (SPIBUFSIZE cfg) - m) 0,
                   replicate (unat (SPIBUFSIZE cfg)) 0, replicate (unat (SPIBUFSIZE cfg)) 0],
       currentBuffer = 0, lastBuffer = 2, spiBufIdx = of_nat (m + 2),
       SPI1TXB = of_nat (m + 1), stray = []\<rparr>"
    by (intro received_in_frame [OF n pl]) simp
  have "SPI1Interrupt cfg (payload d m)
          \<lparr>spiRxBuf = [map (payload d) [0..<m] @ replicate (Suc (Suc m) - m) 0,
                  replicate (Suc (Suc m)) 0, replicate (Suc (Suc m)) 0],
           currentBuffer = 0, lastBuffer = 2, spiBufIdx = SPIBUFSIZE cfg, SPI1TXB = of_nat (m + 1),
           stray = []\<rparr>
        = \<lparr>spiRxBuf = [map (payload d) [0..<Suc m] @ [0],
                  replicate (Suc (Suc m)) 0, replicate (Suc (Suc m)) 0],
           currentBuffer = 1, lastBuffer = 0, spiBufIdx = 1, SPI1TXB = ENDSPI cfg,
           stray = []\<rparr>"
    using ne cmp uk
    by (simp add: SPI1Interrupt_def WriteSPI1_def Let_def Sk storeWord_row0 [OF cmp(1)]
          store_last)
  then show ?thesis
    unfolding m diff_Suc_1 received_Suc prev S [symmetric] m .
qed

text \<open>
  The last word of the frame arrives at cursor 1, after the switch: its column
  \<open>1 - 2 = 65535\<close> in row 1 is the last cell of row 0, the slot just published, which
  is complete only now.
\<close>

lemma received_frame:
  assumes s: "2 \<le> SPIBUFSIZE cfg" "SPIBUFSIZE cfg < 0xFFFF"
    and pl: "\<forall>i < unat (SPIBUFSIZE cfg). payload d i \<noteq> BEGINSPI cfg"
  shows "received cfg d (unat (SPIBUFSIZE cfg)) =
     \<lparr>spiRxBuf = [map (payload d) [0..<unat (SPIBUFSIZE cfg)],
                  replicate (unat (SPIBUFSIZE cfg)) 0, replicate (unat (SPIBUFSIZE cfg)) 0],
      currentBuffer = 1, lastBuffer = 0, spiBufIdx = 2, SPI1TXB = 1, stray = []\<rparr>"
proof -
  define m where "m = unat (SPIBUFSIZE cfg) - 1"
  from s have n2: "2 \<le> unat (SPIBUFSIZE cfg)"
    by (simp add: word_le_nat_alt)
  then have nm: "unat (SPIBUFSIZE cfg) = Suc m" by (simp add: m_def)
  from pl have ne: "payload d m \<noteq> BEGINSPI cfg" by (simp add: nm)
  from s have cmp: "1 < SPIBUFSIZE cfg" "\<not> SPIBUFSIZE cfg < 2" "1 \<le> SPIBUFSIZE cfg"
    by (simp_all add: word_less_nat_alt word_le_nat_alt)
  have fin: "(map (payload d) [0..<m] @ [0])[m := payload d m]
      = map (payload d) [0..<unat (SPIBUFSIZE cfg)]"
    unfolding nm by (simp add: list_update_append)
  have step: "received cfg d (unat (SPIBUFSIZE cfg))
      = SPI1Interrupt cfg (payload d m) (received cfg d m)"
    unfolding nm by (rule received_Suc)
  note prev = received_before_last [OF s pl, folded m_def]
  note st = storeWord_row1_back [OF cmp(3) s(2), folded m_def]
  show ?thesis
    unfolding step prev
    using ne cmp(1,2)
    by (simp add: SPI1Interrupt_def WriteSPI1_def Let_def st fin)
qed

text \<open>Rows of one word: the only word of the frame is stored in bounds, at cursor 2.\<close>

lemma received_frame_1:
  assumes s: "SPIBUFSIZE cfg = 1" and pl: "payload d 0 \<noteq> BEGINSPI cfg"
  shows "received cfg d 1 =
     \<lparr>spiRxBuf = [[payload d 0], [0], [0]],
      currentBuffer = 1, lastBuffer = 0, spiBufIdx = 1, SPI1TXB = 0, stray = []\<rparr>"
proof -
  have "(0 :: uint) < SPIBUFSIZE cfg" by (simp add: s)
  note st = storeWord_row0 [OF this]
  have one: "received cfg d 1 = SPI1Interrupt cfg (payload d 0) (received cfg d 0)"
    using received_Suc [of cfg d 0] by simp
  show ?thesis
    unfolding one received_0
    using pl by (simp add: SPI1Interrupt_def WriteSPI1_def Let_def slaveInit_def s st replicate_3)
qed

text \<open>
  What the master reads back: after \<open>BEGINSPI\<close> and \<open>j\<close> words the slave has loaded the
  index \<open>j + 1\<close>, and \<open>ENDSPI\<close> once \<open>j + 1\<close> reaches \<open>SPIBUFSIZE\<close>.
\<close>

lemma cursor_in_frame:
  assumes n: "unat (SPIBUFSIZE cfg) < 65535"
    and pl: "\<forall>i < unat (SPIBUFSIZE cfg). payload d i \<noteq> BEGINSPI cfg"
  shows "j + 2 \<le> unat (SPIBUFSIZE cfg) \<Longrightarrow> spiBufIdx (received cfg d j) = of_nat (j + 2)"
  by (simp add: received_in_frame [OF n pl])

lemma cursor_before:
  assumes n: "unat (SPIBUFSIZE cfg) < 65535"
    and pl: "\<forall>i < unat (SPIBUFSIZE cfg). payload d i \<noteq> BEGINSPI cfg"
    and j: "j + 1 \<le> unat (SPIBUFSIZE cfg)"
  shows "SPI1TXB (received cfg d j) =
           (if j + 1 < unat (SPIBUFSIZE cfg) then of_nat (j + 1) else ENDSPI cfg)"
proof -
  define c :: uint where "c = of_nat (j + 1)"
  have before: "\<exists>s w. received cfg d j = SPI1Interrupt cfg w s \<and> spiBufIdx s = c"
  proof (cases j)
    case 0
    then show ?thesis by (auto simp add: received_0 slaveInit_def c_def)
  next
    case (Suc k)
    with j cursor_in_frame [OF n pl, of k] show ?thesis
      by (auto simp add: received_Suc c_def)
  qed
  from j n have u: "unat c = j + 1"
    unfolding c_def by (intro unat_of_nat16) simp
  have lt: "c < SPIBUFSIZE cfg \<longleftrightarrow> j + 1 < unat (SPIBUFSIZE cfg)"
    by (simp only: word_less_nat_alt u)
  have eq: "c = SPIBUFSIZE cfg \<longleftrightarrow> j + 1 = unat (SPIBUFSIZE cfg)"
    by (simp only: word_unat_eq_iff u)
  from before obtain s w where "received cfg d j = SPI1Interrupt cfg w s"
    and "spiBufIdx s = c" by blast
  with lt eq j have "SPI1TXB (received cfg d j) =
           (if j + 1 < unat (SPIBUFSIZE cfg) then c else ENDSPI cfg)"
    by (auto simp add: SPI1TXB_isr)
  then show ?thesis unfolding c_def .
qed

text \<open>
  The loop of \<open>spiSend\<close> against the slave, entered with the index \<open>j\<close> read back and
  \<open>j\<close> words delivered: it delivers the remaining words in order and returns.
\<close>

lemma loop_to_end:
  assumes n: "unat (SPIBUFSIZE cfg) < 65535"
    and e: "SPIBUFSIZE cfg \<le> ENDSPI cfg"
    and pl: "\<forall>i < unat (SPIBUFSIZE cfg). payload d i \<noteq> BEGINSPI cfg"
  shows "j + k + 1 = unat (SPIBUFSIZE cfg) \<Longrightarrow>
         spiSendLoop (slaveBus cfg) cfg d (of_nat j) (received cfg d j)
           = Some (received cfg d (unat (SPIBUFSIZE cfg)))"
proof (induction k arbitrary: j)
  case 0
  from 0 n have u: "unat (of_nat j :: uint) = j" by (simp add: unat_of_nat16)
  from e 0 u have ne: "(of_nat j :: uint) \<noteq> ENDSPI cfg"
    by (auto simp add: word_le_nat_alt)
  from 0 have tx: "SPI1TXB (received cfg d j) = ENDSPI cfg"
    using cursor_before [OF n pl, of j] by simp
  from 0 have last: "SPI1Interrupt cfg (payload d j) (received cfg d j)
      = received cfg d (unat (SPIBUFSIZE cfg))"
    by (simp add: received_Suc [symmetric])
  have "spiSendLoop (slaveBus cfg) cfg d (of_nat j) (received cfg d j)
      = spiSendLoop (slaveBus cfg) cfg d (ENDSPI cfg) (received cfg d (unat (SPIBUFSIZE cfg)))"
    using ne tx last
    by (subst spiSendLoop.simps) (simp add: slaveBus_def payload_def)
  also have "\<dots> = Some (received cfg d (unat (SPIBUFSIZE cfg)))"
    by (subst spiSendLoop.simps) simp
  finally show ?case .
next
  case (Suc k)
  from Suc.prems n have u: "unat (of_nat j :: uint) = j" by (simp add: unat_of_nat16)
  from e Suc.prems u have ne: "(of_nat j :: uint) \<noteq> ENDSPI cfg"
    by (auto simp add: word_le_nat_alt)
  from Suc.prems have tx: "SPI1TXB (received cfg d j) = of_nat (Suc j)"
    using cursor_before [OF n pl, of j] by simp
  have "spiSendLoop (slaveBus cfg) cfg d (of_nat j) (received cfg d j)
      = spiSendLoop (slaveBus cfg) cfg d (of_nat (Suc j)) (received cfg d (Suc j))"
    using ne tx
    by (subst spiSendLoop.simps) (simp add: slaveBus_def payload_def received_Suc)
  also have "\<dots> = Some (received cfg d (unat (SPIBUFSIZE cfg)))"
    using Suc.prems by (intro Suc.IH) simp
  finally show ?case .
qed

text \<open>
  \<open>spiSend\<close> against the slave in its initial state returns, and the slave has then
  received \<open>BEGINSPI\<close> and the words \<open>data2Send[0]\<close> to \<open>data2Send[SPIBUFSIZE - 1]\<close>,
  one interrupt each.
\<close>

lemma spiSend_delivers:
  assumes s: "1 \<le> SPIBUFSIZE cfg" "SPIBUFSIZE cfg < 0xFFFF"
    and e: "SPIBUFSIZE cfg \<le> ENDSPI cfg"
    and pl: "\<forall>i < unat (SPIBUFSIZE cfg). payload d i \<noteq> BEGINSPI cfg"
  shows "spiSend (slaveBus cfg) cfg d (slaveInit cfg)
           = Some (received cfg d (unat (SPIBUFSIZE cfg)))"
proof -
  from s have n: "unat (SPIBUFSIZE cfg) < 65535" and n1: "1 \<le> unat (SPIBUFSIZE cfg)"
    by (simp_all add: word_less_nat_alt word_le_nat_alt)
  from n1 have "0 + (unat (SPIBUFSIZE cfg) - 1) + 1 = unat (SPIBUFSIZE cfg)" by simp
  from loop_to_end [OF n e pl this]
  show ?thesis
    by (simp add: spiSend_def slaveBus_def received_0 slaveInit_def)
qed

text \<open>
  Claim C1. For rows of 1 to 65534 words, \<open>ENDSPI\<close> not below \<open>SPIBUFSIZE\<close> (so that no
  index the slave asks for is taken for \<open>ENDSPI\<close>) and every frame of \<open>SPIBUFSIZE\<close> words
  other than \<open>BEGINSPI\<close>: \<open>spiSend\<close> against the slave in its initial state, one interrupt
  per round trip, returns, and the slot \<open>lastBuffer\<close> then designates holds exactly the
  words of the frame in their order.
\<close>

theorem first_frame_delivered:
  assumes "1 \<le> SPIBUFSIZE cfg" and "SPIBUFSIZE cfg < 0xFFFF"
    and "SPIBUFSIZE cfg \<le> ENDSPI cfg"
    and "\<forall>i < unat (SPIBUFSIZE cfg). payload data2Send i \<noteq> BEGINSPI cfg"
  shows "map_option (\<lambda>s. slotOf s (lastBuffer s))
           (spiSend (slaveBus cfg) cfg data2Send (slaveInit cfg))
         = Some (Some (map (payload data2Send) [0..<unat (SPIBUFSIZE cfg)]))"
proof (cases "SPIBUFSIZE cfg = 1")
  case True
  with assms(4) have "payload data2Send 0 \<noteq> BEGINSPI cfg" by simp
  from received_frame_1 [OF True this] spiSend_delivers [OF assms] True
  show ?thesis by (simp add: slotOf_def)
next
  case False
  with assms(1) have two: "2 \<le> SPIBUFSIZE cfg"
    by (simp add: word_le_nat_alt word_unat_eq_iff)
  from spiSend_delivers [OF assms] show ?thesis
    by (simp add: received_frame [OF two assms(2,4)] slotOf_def)
qed

text \<open>
  With rows of four words and the frame 10, 20, 30, 40, the published slot holds
  10, 20, 30, 40.
\<close>

theorem first_frame_delivered_witness:
  "1 \<le> SPIBUFSIZE cfg4 \<and> SPIBUFSIZE cfg4 < 0xFFFF \<and> SPIBUFSIZE cfg4 \<le> ENDSPI cfg4 \<and>
   payload frame4 0 \<noteq> BEGINSPI cfg4 \<and> payload frame4 1 \<noteq> BEGINSPI cfg4 \<and>
   payload frame4 2 \<noteq> BEGINSPI cfg4 \<and> payload frame4 3 \<noteq> BEGINSPI cfg4 \<and>
   map (payload frame4) [0..<unat (SPIBUFSIZE cfg4)] = [10, 20, 30, 40] \<and>
   map_option (\<lambda>s. slotOf s (lastBuffer s)) (spiSend (slaveBus cfg4) cfg4 frame4 (slaveInit cfg4))
     = Some (Some [10, 20, 30, 40])"
proof -
  have "255 < BEGINSPI cfg4" by (simp add: cfg4_def)
  then have pl: "\<forall>i < unat (SPIBUFSIZE cfg4). payload frame4 i \<noteq> BEGINSPI cfg4"
    by (simp add: payload_neq_BEGINSPI)
  have c: "1 \<le> SPIBUFSIZE cfg4" "SPIBUFSIZE cfg4 < 0xFFFF" "SPIBUFSIZE cfg4 \<le> ENDSPI cfg4"
    by (simp_all add: cfg4_def)
  have "[0..<4] = [0, 1, 2, 3]" by (simp add: upt_rec)
  then have fr: "map (payload frame4) [0..<unat (SPIBUFSIZE cfg4)] = [10, 20, 30, 40]"
    by (simp add: cfg4_def payload_def frame4_def)
  from pl have pls: "payload frame4 0 \<noteq> BEGINSPI cfg4" "payload frame4 1 \<noteq> BEGINSPI cfg4"
    "payload frame4 2 \<noteq> BEGINSPI cfg4" "payload frame4 3 \<noteq> BEGINSPI cfg4"
    by (simp_all add: cfg4_def)
  from first_frame_delivered [OF c pl, unfolded fr] c pls fr show ?thesis by blast
qed





end
